theory Spec2Isabelle
  imports Main
begin

section \<open>Values of the host language\<close>

text \<open>
  A field typed \<open>T | null\<close> and declared optional has three shapes in the source:
  absent, \<open>null\<close>, or a value.
\<close>

datatype 'a nullable = Undefined | Null | Value 'a

text \<open>
  An error value travelling through the gateway. The source only ever looks at
  \<open>String(err)\<close> and hands the value itself to \<open>isDisallowedIntentsError\<close>; the
  number keeps two errors with the same text apart.
\<close>

datatype gw_error = GwError nat string

fun String_of :: "gw_error \<Rightarrow> string" where
  "String_of (GwError n s) = s"

text \<open>\<open>s.includes(pat)\<close>: \<open>pat\<close> occurs in \<open>s\<close> as a contiguous run.\<close>

fun startsWith :: "string \<Rightarrow> string \<Rightarrow> bool" where
  "startsWith s [] = True"
| "startsWith [] (p # ps) = False"
| "startsWith (c # cs) (p # ps) = (c = p \<and> startsWith cs ps)"

fun str_includes :: "string \<Rightarrow> string \<Rightarrow> bool" where
  "str_includes [] pat = (pat = [])"
| "str_includes (c # cs) pat = (startsWith (c # cs) pat \<or> str_includes cs pat)"

section \<open>The gateway handle\<close>

text \<open>
  The part of the gateway plugin that \<open>provider.lifecycle.ts\<close> reads and writes:
  \<open>isConnected\<close>, the optional \<open>state\<close> object with its three resume fields, the
  plugin's own \<open>sequence\<close>, and \<open>options.reconnect\<close> (its \<open>maxAttempts\<close>, when set).
\<close>

record resume_state =
  sessionId :: "string nullable"
  resumeGatewayUrl :: "string nullable"
  sequence :: "int nullable"

record gateway_plugin =
  isConnected :: bool
  state :: "resume_state option"
  gw_sequence :: "int nullable"
  reconnect_maxAttempts :: "nat option"

record abort_signal =
  aborted :: bool
  onAbortListener :: bool

section \<open>Timers, notices and observable calls\<close>

text \<open>
  A timer of the host holds the closure it will run. Both closures of the watchdog
  capture the \<open>sawConnected\<close> variable of the watch cycle that created them; the
  number is the index of that variable in the list of all such variables.
\<close>

datatype timer_callback = HelloConnectedPoll nat | HelloTimeout nat

text \<open>
  The two texts written through \<open>runtime.log\<close> and \<open>runtime.error\<close>, kept as
  data: the stall notice carries the counter and whether a fresh identify is forced,
  the error notice is either the fixed 4014 text or the text of the error.
\<close>

datatype error_notice = DisallowedIntentsNotice | GatewayErrorNotice string

datatype effect =
    RegisterGateway string
  | AttachGatewayLogging
  | EmitterOn_debug
  | EmitterRemove_debug
  | EmitterOnce_error
  | AddAbortListener
  | RemoveAbortListener
  | Gateway_disconnect
  | Gateway_connect bool
  | SetInterval nat nat
  | SetTimeout nat nat
  | ClearInterval nat
  | ClearTimeout nat
  | Runtime_log nat bool
  | Runtime_error error_notice
  | Approvals_start
  | WaitForDiscordGatewayStop
  | ReleaseEarlyGatewayErrorGuard
  | UnregisterGateway string
  | StopGatewayLogging
  | VoiceManager_destroy
  | Approvals_stop
  | ThreadBindings_stop

section \<open>The state one lifecycle run works on\<close>

text \<open>
  Everything \<open>runDiscordGatewayLifecycle\<close> can read or change: the gateway plugin, the
  abort signal, the timers of the host, whether \<open>onGatewayDebug\<close> is attached, the
  caller's array of pending errors, \<open>voiceManagerRef.current\<close>, the variables local to
  the run (\<open>helloTimeoutId\<close>, \<open>helloConnectedPollId\<close>, \<open>consecutiveHelloStalls\<close>,
  one \<open>sawConnected\<close> per watch cycle, \<open>sawDisallowedIntents\<close>), and the calls made to
  collaborators so far, in order.
\<close>

record world =
  gateway :: "gateway_plugin option"
  abortSignal :: "abort_signal option"
  timers :: "(nat \<times> timer_callback) list"
  nextTimerId :: nat
  debugListener :: bool
  pendingGatewayErrors :: "gw_error list option"
  voiceManagerRef_current :: bool
  helloTimeoutId :: "nat option"
  helloConnectedPollId :: "nat option"
  consecutiveHelloStalls :: nat
  sawConnected :: "bool list"
  sawDisallowedIntents :: bool
  effects :: "effect list"

definition call :: "effect \<Rightarrow> world \<Rightarrow> world" where
  "call e w = w\<lparr>effects := effects w @ [e]\<rparr>"

text \<open>
  The host's timer table. \<open>setTimeout\<close> and \<open>setInterval\<close> hand out a fresh handle
  (always truthy); \<open>clearTimeout\<close> and \<open>clearInterval\<close> drop the handle, and do nothing
  for a handle that is no longer there. The delay in milliseconds is part of the call.
  Time itself is not part of the state: which live timer fires next is up to the host
  (\<open>fireTimer\<close> below), so a property proved for every order of events holds for the
  order the delays produce.
\<close>

definition dropTimer :: "nat \<Rightarrow> world \<Rightarrow> world" where
  "dropTimer i w = w\<lparr>timers := filter (\<lambda>t. fst t \<noteq> i) (timers w)\<rparr>"

definition addTimer :: "timer_callback \<Rightarrow> world \<Rightarrow> nat \<times> world" where
  "addTimer cb w =
     (nextTimerId w,
      w\<lparr>timers := timers w @ [(nextTimerId w, cb)], nextTimerId := Suc (nextTimerId w)\<rparr>)"

definition setInterval :: "timer_callback \<Rightarrow> nat \<Rightarrow> world \<Rightarrow> nat \<times> world" where
  "setInterval cb ms w = (case addTimer cb w of (i, w') \<Rightarrow> (i, call (SetInterval i ms) w'))"

definition setTimeout :: "timer_callback \<Rightarrow> nat \<Rightarrow> world \<Rightarrow> nat \<times> world" where
  "setTimeout cb ms w = (case addTimer cb w of (i, w') \<Rightarrow> (i, call (SetTimeout i ms) w'))"

definition clearInterval :: "nat \<Rightarrow> world \<Rightarrow> world" where
  "clearInterval i w = call (ClearInterval i) (dropTimer i w)"

definition clearTimeout :: "nat \<Rightarrow> world \<Rightarrow> world" where
  "clearTimeout i w = call (ClearTimeout i) (dropTimer i w)"

section \<open>The stall watchdog\<close>

definition HELLO_TIMEOUT_MS :: nat where
  "HELLO_TIMEOUT_MS = 30000"

definition HELLO_CONNECTED_POLL_MS :: nat where
  "HELLO_CONNECTED_POLL_MS = 250"

definition MAX_CONSECUTIVE_HELLO_STALLS :: nat where
  "MAX_CONSECUTIVE_HELLO_STALLS = 3"

definition clearPoll :: "world \<Rightarrow> world" where
  "clearPoll w =
     (case helloConnectedPollId w of
        None \<Rightarrow> w
      | Some i \<Rightarrow> (clearInterval i w)\<lparr>helloConnectedPollId := None\<rparr>)"

definition clearHelloWatch :: "world \<Rightarrow> world" where
  "clearHelloWatch w =
     clearPoll
       (case helloTimeoutId w of
          None \<Rightarrow> w
        | Some t \<Rightarrow> (clearTimeout t w)\<lparr>helloTimeoutId := None\<rparr>)"

definition resetHelloStallCounter :: "world \<Rightarrow> world" where
  "resetHelloStallCounter w = w\<lparr>consecutiveHelloStalls := 0\<rparr>"

definition clearResumeState :: "world \<Rightarrow> world" where
  "clearResumeState w =
     (case gateway w of
        None \<Rightarrow> w
      | Some g \<Rightarrow>
          (case state g of
             None \<Rightarrow> w
           | Some s \<Rightarrow>
               w\<lparr>gateway := Some (g\<lparr>
                    state := Some (s\<lparr>sessionId := Null, resumeGatewayUrl := Null,
                                     sequence := Null\<rparr>),
                    gw_sequence := Null\<rparr>)\<rparr>))"

text \<open>\<open>gateway?.isConnected\<close>, read as a condition.\<close>

definition gatewayIsConnected :: "world \<Rightarrow> bool" where
  "gatewayIsConnected w = (case gateway w of None \<Rightarrow> False | Some g \<Rightarrow> isConnected g)"

text \<open>\<open>gateway?.disconnect()\<close> and \<open>gateway?.connect(resume)\<close>.\<close>

definition gateway_disconnect :: "world \<Rightarrow> world" where
  "gateway_disconnect w = (case gateway w of None \<Rightarrow> w | Some g \<Rightarrow> call Gateway_disconnect w)"

definition gateway_connect :: "bool \<Rightarrow> world \<Rightarrow> world" where
  "gateway_connect resume w =
     (case gateway w of None \<Rightarrow> w | Some g \<Rightarrow> call (Gateway_connect resume) w)"

text \<open>
  The \<open>sawConnected\<close> variable of watch cycle \<open>c\<close>. A closure's variable exists as long
  as the closure does, so the index of a live timer's variable is in range
  (\<open>watchdog_inv\<close> below).
\<close>

definition sawConnectedOf :: "world \<Rightarrow> nat \<Rightarrow> bool" where
  "sawConnectedOf w c = (c < length (sawConnected w) \<and> sawConnected w ! c)"

text \<open>The body of the \<open>setInterval\<close> closure of watch cycle \<open>c\<close>.\<close>

definition helloConnectedPoll :: "nat \<Rightarrow> world \<Rightarrow> world" where
  "helloConnectedPoll c w =
     (if \<not> gatewayIsConnected w then w
      else clearPoll (resetHelloStallCounter (w\<lparr>sawConnected := (sawConnected w)[c := True]\<rparr>)))"

text \<open>The body of the \<open>setTimeout\<close> closure of watch cycle \<open>c\<close>.\<close>

definition helloTimeout :: "nat \<Rightarrow> world \<Rightarrow> world" where
  "helloTimeout c w =
     (let w1 = clearPoll w;
          w2 =
            (if sawConnectedOf w1 c \<or> gatewayIsConnected w1 then resetHelloStallCounter w1
             else
               (let w3 = w1\<lparr>consecutiveHelloStalls := consecutiveHelloStalls w1 + 1\<rparr>;
                    forceFreshIdentify =
                      (consecutiveHelloStalls w3 \<ge> MAX_CONSECUTIVE_HELLO_STALLS);
                    w4 = call (Runtime_log (consecutiveHelloStalls w3) forceFreshIdentify) w3;
                    w5 = (if forceFreshIdentify
                          then resetHelloStallCounter (clearResumeState w4) else w4)
                in gateway_connect (\<not> forceFreshIdentify) (gateway_disconnect w5)))
      in w2\<lparr>helloTimeoutId := None\<rparr>)"

definition onGatewayDebug :: "string \<Rightarrow> world \<Rightarrow> world" where
  "onGatewayDebug message w =
     (if str_includes message ''WebSocket connection closed'' then
        clearHelloWatch (if gatewayIsConnected w then resetHelloStallCounter w else w)
      else if \<not> str_includes message ''WebSocket connection opened'' then w
      else
        (let w1 = clearHelloWatch w;
             c = length (sawConnected w1);
             w2 = w1\<lparr>sawConnected := sawConnected w1 @ [gatewayIsConnected w1]\<rparr>;
             (i, w3) = setInterval (HelloConnectedPoll c) HELLO_CONNECTED_POLL_MS w2;
             w4 = w3\<lparr>helloConnectedPollId := Some i\<rparr>;
             (t, w5) = setTimeout (HelloTimeout c) HELLO_TIMEOUT_MS w4
         in w5\<lparr>helloTimeoutId := Some t\<rparr>))"

text \<open>
  The host runs the closure of a live timer. A timeout has left the timer table when
  its closure runs; an interval stays until it is cleared.
\<close>

definition fireTimer :: "nat \<Rightarrow> world \<Rightarrow> world" where
  "fireTimer i w =
     (case map_of (timers w) i of
        None \<Rightarrow> w
      | Some (HelloConnectedPoll c) \<Rightarrow> helloConnectedPoll c w
      | Some (HelloTimeout c) \<Rightarrow> helloTimeout c (dropTimer i w))"

section \<open>What the caller passes in\<close>

text \<open>
  The parameters that do not change during a run. A hook supplied by the caller
  (\<open>execApprovalsHandler.start\<close> and \<open>.stop\<close>, \<open>voiceManager.destroy\<close>,
  \<open>threadBindings.stop\<close>, \<open>releaseEarlyGatewayErrorGuard\<close>) either returns
  (\<open>None\<close>) or throws, respectively rejects, with an error (\<open>Some e\<close>). The outer
  \<open>option\<close> of \<open>voiceManager\<close>, \<open>execApprovalsHandler\<close> and
  \<open>releaseEarlyGatewayErrorGuard\<close> says whether the caller supplied the object at all.
  \<open>emitterPresent\<close> is whether \<open>getDiscordGatewayEmitter(gateway)\<close> returned an
  emitter. Calls into the gateway plugin, the registry, the gateway logging, the
  emitter, the runtime sink and the host's timers are taken to return normally.
\<close>

record params =
  accountId :: string
  emitterPresent :: bool
  isDisallowedIntentsError :: "gw_error \<Rightarrow> bool"
  voiceManager :: "gw_error option option"
  execApprovalsHandler :: "(gw_error option \<times> gw_error option) option"
  threadBindings_stop :: "gw_error option"
  releaseEarlyGatewayErrorGuard :: "gw_error option option"

section \<open>Cancellation\<close>

definition onAbort :: "params \<Rightarrow> world \<Rightarrow> world" where
  "onAbort p w =
     (case gateway w of
        None \<Rightarrow> w
      | Some g \<Rightarrow>
          (let w1 = (if emitterPresent p then call EmitterOnce_error w else w);
               w2 = w1\<lparr>gateway := Some (g\<lparr>reconnect_maxAttempts := Some 0\<rparr>)\<rparr>
           in call Gateway_disconnect w2))"

text \<open>
  The signal fires its \<open>abort\<close> event: it is marked aborted and its listeners run. A
  listener added with \<open>once: true\<close> is taken off the signal before it runs.
\<close>

definition dispatchAbort :: "params \<Rightarrow> world \<Rightarrow> world" where
  "dispatchAbort p w =
     (case abortSignal w of
        None \<Rightarrow> w
      | Some s \<Rightarrow>
          (let w1 = w\<lparr>abortSignal := Some (s\<lparr>aborted := True, onAbortListener := False\<rparr>)\<rparr>
           in if onAbortListener s then onAbort p w1 else w1))"

section \<open>What happens around the run\<close>

text \<open>
  While the run is suspended the emitter may emit a debug line, the host may fire a
  timer, the gateway library may flip \<open>isConnected\<close>, and the abort signal may fire.
  Each of these is handled to its end before the next one: the gateway's
  \<open>disconnect()\<close> and \<open>connect()\<close> are taken not to emit a debug line from within the
  call.
\<close>

datatype env_event =
    EmitDebug string
  | TimerFires nat
  | GatewaySetsConnected bool
  | AbortSignalled

definition env_step :: "params \<Rightarrow> env_event \<Rightarrow> world \<Rightarrow> world" where
  "env_step p ev w =
     (case ev of
        EmitDebug m \<Rightarrow> (if debugListener w then onGatewayDebug m w else w)
      | TimerFires i \<Rightarrow> fireTimer i w
      | GatewaySetsConnected b \<Rightarrow>
          (case gateway w of
             None \<Rightarrow> w
           | Some g \<Rightarrow> w\<lparr>gateway := Some (g\<lparr>isConnected := b\<rparr>)\<rparr>)
      | AbortSignalled \<Rightarrow> dispatchAbort p w)"

definition env_run :: "params \<Rightarrow> env_event list \<Rightarrow> world \<Rightarrow> world" where
  "env_run p evs w = fold (env_step p) evs w"

section \<open>Error classification\<close>

definition logGatewayError :: "params \<Rightarrow> gw_error \<Rightarrow> world \<Rightarrow> world" where
  "logGatewayError p err w =
     (if isDisallowedIntentsError p err
      then call (Runtime_error DisallowedIntentsNotice) (w\<lparr>sawDisallowedIntents := True\<rparr>)
      else call (Runtime_error (GatewayErrorNotice (String_of err))) w)"

definition shouldStopOnGatewayError :: "params \<Rightarrow> gw_error \<Rightarrow> bool" where
  "shouldStopOnGatewayError p err =
     (str_includes (String_of err) ''Max reconnect attempts'' \<or>
      str_includes (String_of err) ''Fatal Gateway error'' \<or>
      isDisallowedIntentsError p err)"

section \<open>Waiting for the gateway to stop\<close>

text \<open>
  Modelled from the spec: \<open>waitForDiscordGatewayStop\<close> of \<open>monitor.gateway.ts\<close>, which
  is not among the sources. The spec (section 6): it takes the handle, a cancellation
  signal, an error-observer callback and a stop predicate over errors; it resolves when
  the stream naturally stops, rejects when the predicate matches an observed error, and
  resolves when cancellation fires. Here the stream is a list of events; when the list
  is used up the stream has stopped. An emitted error can only be observed when there
  is a handle with an emitter. \<open>WaitFails\<close> is a rejection that is not an observed
  error (the tests of the lifecycle make the wait reject this way).
\<close>

datatype wait_event =
    Env env_event
  | EmitError gw_error
  | WaitFails gw_error

datatype wait_result = Resolved | Rejected gw_error

fun waitLoop :: "params \<Rightarrow> wait_event list \<Rightarrow> world \<Rightarrow> wait_result \<times> world" where
  "waitLoop p [] w = (Resolved, w)"
| "waitLoop p (Env ev # evs) w =
     (let w1 = env_step p ev w
      in if ev = AbortSignalled \<and> abortSignal w \<noteq> None then (Resolved, w1)
         else waitLoop p evs w1)"
| "waitLoop p (EmitError err # evs) w =
     (if gateway w = None \<or> \<not> emitterPresent p then waitLoop p evs w
      else
        (let w1 = logGatewayError p err w
         in if shouldStopOnGatewayError p err then (Rejected err, w1)
            else waitLoop p evs w1))"
| "waitLoop p (WaitFails err # evs) w = (Rejected err, w)"

definition signalAborted :: "world \<Rightarrow> bool" where
  "signalAborted w = (case abortSignal w of None \<Rightarrow> False | Some s \<Rightarrow> aborted s)"

definition waitForDiscordGatewayStop ::
  "params \<Rightarrow> wait_event list \<Rightarrow> world \<Rightarrow> wait_result \<times> world" where
  "waitForDiscordGatewayStop p evs w =
     (let w1 = call WaitForDiscordGatewayStop w
      in if signalAborted w1 then (Resolved, w1) else waitLoop p evs w1)"

section \<open>The lifecycle run\<close>

text \<open>Everything before the \<open>try\<close>.\<close>

definition beforeTry :: "params \<Rightarrow> world \<Rightarrow> world" where
  "beforeTry p w =
     (let w1 = (case gateway w of
                  None \<Rightarrow> w
                | Some g \<Rightarrow> call (RegisterGateway (accountId p)) w);
          w2 = call AttachGatewayLogging w1;
          w3 = (case abortSignal w2 of
                  None \<Rightarrow> w2
                | Some s \<Rightarrow>
                    (if aborted s then onAbort p w2
                     else (call AddAbortListener w2)
                            \<lparr>abortSignal := Some (s\<lparr>onAbortListener := True\<rparr>)\<rparr>));
          w4 = w3\<lparr>helloTimeoutId := None, helloConnectedPollId := None,
                  consecutiveHelloStalls := 0, sawConnected := []\<rparr>;
          w5 = (if emitterPresent p
                then (call EmitterOn_debug w4)\<lparr>debugListener := True\<rparr> else w4)
      in w5\<lparr>sawDisallowedIntents := False\<rparr>)"

text \<open>The loop over the snapshot of the queued errors.\<close>

datatype drain_result = DrainDone | DrainReturn | DrainThrow gw_error

fun drainQueued :: "params \<Rightarrow> gw_error list \<Rightarrow> world \<Rightarrow> drain_result \<times> world" where
  "drainQueued p [] w = (DrainDone, w)"
| "drainQueued p (err # queuedErrors) w =
     (let w1 = logGatewayError p err w
      in if \<not> shouldStopOnGatewayError p err then drainQueued p queuedErrors w1
         else if isDisallowedIntentsError p err then (DrainReturn, w1)
         else (DrainThrow err, w1))"













text \<open>
  The state a run starts from: the handle, the signal and the pending errors are the
  caller's; nothing has been called and no timer of the run exists.
\<close>

definition startWorld ::
  "gateway_plugin option \<Rightarrow> abort_signal option \<Rightarrow> gw_error list option \<Rightarrow> bool \<Rightarrow> world" where
  "startWorld g s q v =
     \<lparr>gateway = g, abortSignal = s, timers = [], nextTimerId = 1, debugListener = False,
      pendingGatewayErrors = q, voiceManagerRef_current = v, helloTimeoutId = None,
      helloConnectedPollId = None, consecutiveHelloStalls = 0, sawConnected = [],
      sawDisallowedIntents = False, effects = []\<rparr>"

section \<open>Vocabulary of the properties\<close>

text \<open>
  The timers of the run that the host still holds are exactly the ones the run's two
  variables name: an interval is named by \<open>helloConnectedPollId\<close>, a timeout by
  \<open>helloTimeoutId\<close>, and each closure's \<open>sawConnected\<close> variable exists.
\<close>

fun timerTracked :: "world \<Rightarrow> nat \<times> timer_callback \<Rightarrow> bool" where
  "timerTracked w (i, HelloConnectedPoll c) =
     (helloConnectedPollId w = Some i \<and> i < nextTimerId w \<and> c < length (sawConnected w))"
| "timerTracked w (i, HelloTimeout c) =
     (helloTimeoutId w = Some i \<and> i < nextTimerId w \<and> c < length (sawConnected w))"

definition watchdog_inv :: "world \<Rightarrow> bool" where
  "watchdog_inv w = list_all (timerTracked w) (timers w)"

text \<open>Kinds of calls.\<close>

fun isTeardownCall :: "effect \<Rightarrow> bool" where
  "isTeardownCall ReleaseEarlyGatewayErrorGuard = True"
| "isTeardownCall (UnregisterGateway a) = True"
| "isTeardownCall StopGatewayLogging = True"
| "isTeardownCall EmitterRemove_debug = True"
| "isTeardownCall RemoveAbortListener = True"
| "isTeardownCall VoiceManager_destroy = True"
| "isTeardownCall Approvals_stop = True"
| "isTeardownCall ThreadBindings_stop = True"
| "isTeardownCall e = False"

definition noTeardownCall :: "effect list \<Rightarrow> bool" where
  "noTeardownCall xs = list_all (\<lambda>e. \<not> isTeardownCall e) xs"


fun isGatewayCall :: "effect \<Rightarrow> bool" where
  "isGatewayCall Gateway_disconnect = True"
| "isGatewayCall (Gateway_connect resume) = True"
| "isGatewayCall e = False"

fun isErrorNotice :: "effect \<Rightarrow> bool" where
  "isErrorNotice (Runtime_error n) = True"
| "isErrorNotice e = False"


text \<open>The calls the watchdog's \<open>clearHelloWatch\<close> makes in a state.\<close>

definition clearCalls :: "world \<Rightarrow> effect list" where
  "clearCalls w =
     (case helloTimeoutId w of None \<Rightarrow> [] | Some t \<Rightarrow> [ClearTimeout t])
     @ (case helloConnectedPollId w of None \<Rightarrow> [] | Some i \<Rightarrow> [ClearInterval i])"

text \<open>The notice \<open>logGatewayError\<close> writes for an error.\<close>

definition errorNotice :: "params \<Rightarrow> gw_error \<Rightarrow> effect" where
  "errorNotice p err =
     Runtime_error (if isDisallowedIntentsError p err then DisallowedIntentsNotice
                    else GatewayErrorNotice (String_of err))"





text \<open>
  The teardown order as the specification lists it (section 4.1, step 7), split around
  the clearing of the watchdog's timers: release the guard, remove the registry entry,
  stop the logging; then detach the debug and the abort listener, stop the voice
  manager, stop the approvals handler, stop the thread bindings. A step whose object
  the caller did not supply is absent.
\<close>

definition teardownBeforeClear :: "params \<Rightarrow> effect list" where
  "teardownBeforeClear p =
     (case releaseEarlyGatewayErrorGuard p of
        None \<Rightarrow> [] | Some r \<Rightarrow> [ReleaseEarlyGatewayErrorGuard])
     @ [UnregisterGateway (accountId p), StopGatewayLogging]"

definition teardownAfterClear :: "params \<Rightarrow> bool \<Rightarrow> effect list" where
  "teardownAfterClear p hasSignal =
     (if emitterPresent p then [EmitterRemove_debug] else [])
     @ (if hasSignal then [RemoveAbortListener] else [])
     @ (case voiceManager p of None \<Rightarrow> [] | Some r \<Rightarrow> [VoiceManager_destroy])
     @ (case execApprovalsHandler p of None \<Rightarrow> [] | Some h \<Rightarrow> [Approvals_stop])
     @ [ThreadBindings_stop]"

text \<open>The handle after \<open>clearResumeState\<close>.\<close>

definition resumeCleared :: "gateway_plugin \<Rightarrow> gateway_plugin" where
  "resumeCleared g =
     (case state g of
        None \<Rightarrow> g
      | Some s \<Rightarrow> g\<lparr>state := Some (s\<lparr>sessionId := Null, resumeGatewayUrl := Null,
                                      sequence := Null\<rparr>),
                     gw_sequence := Null\<rparr>)"

text \<open>
  \<open>n\<close> watch cycles in a row that each end in the deadline: the connection opens, the
  poll of the cycle fires \<open>polls\<close> times, and then the timeout of the cycle fires.
  \<open>i\<close> is the next free timer handle, so the interval of the first cycle gets \<open>i\<close> and
  its timeout \<open>i + 1\<close>.
\<close>

fun stallCycles :: "nat \<Rightarrow> nat \<Rightarrow> nat \<Rightarrow> env_event list" where
  "stallCycles i polls 0 = []"
| "stallCycles i polls (Suc n) =
     EmitDebug ''WebSocket connection opened'' # replicate polls (TimerFires i)
       @ TimerFires (Suc i) # stallCycles (i + 2) polls n"

section \<open>Concrete runs\<close>

definition gw_resumable :: gateway_plugin where
  "gw_resumable =
     \<lparr>isConnected = False,
      state = Some \<lparr>sessionId = Value ''session-1'',
                    resumeGatewayUrl = Value ''wss://gateway.discord.gg'',
                    sequence = Value 123\<rparr>,
      gw_sequence = Value 123, reconnect_maxAttempts = None\<rparr>"


definition harness :: params where
  "harness =
     \<lparr>accountId = ''default'', emitterPresent = True,
      isDisallowedIntentsError = (\<lambda>err. str_includes (String_of err) ''4014''),
      voiceManager = None, execApprovalsHandler = Some (None, None),
      threadBindings_stop = None, releaseEarlyGatewayErrorGuard = Some None\<rparr>"






definition max_reconnect :: gw_error where
  "max_reconnect = GwError 2 ''Error: Max reconnect attempts (5) reached''"

definition fatal_4000 :: gw_error where
  "fatal_4000 = GwError 3 ''Error: Fatal Gateway error: 4000''"

definition fatal_4014 :: gw_error where
  "fatal_4014 = GwError 4 ''Error: Fatal Gateway error: 4014''"

definition transient :: gw_error where
  "transient = GwError 5 ''Error: socket hang up''"



text \<open>The wired run on a fresh handle, before anything has happened.\<close>

definition wired :: "gateway_plugin \<Rightarrow> world" where
  "wired g = beforeTry harness (startWorld (Some g) None None False)"

text \<open>A connection has opened and the handshake has completed within the window.\<close>

definition watching_connected :: world where
  "watching_connected =
     env_run harness
       [EmitDebug ''WebSocket connection opened'', GatewaySetsConnected True]
       (wired gw_resumable)"

text \<open>The poll of that cycle has fired and seen \<open>isConnected\<close>.\<close>

definition confirmed_in_window :: world where
  "confirmed_in_window = fireTimer 1 watching_connected"


section \<open>The ordered event dispatcher\<close>

text \<open>
  Modelled from the spec: the dispatcher behind \<open>DiscordMessageListener\<close>
  (\<open>listeners.ts\<close>), of which only the tests are among the sources. The spec
  (section 4.4): it is a single forward chain; each call of \<open>handle\<close> appends its
  handler invocation after the prior chain tail settles (success or failure), the new
  tail becomes the chain's current tail, and \<open>handle\<close> returns immediately without
  awaiting the handler; a handler that fails is caught and logged and does not keep
  later ones from running. The chain is the list of its links, oldest first; a link is
  waiting for the one before it, running its handler body, or settled.
\<close>

datatype link_status = Waiting | Running | Settled

record dispatcher =
  chain :: "link_status list"
  failuresLogged :: "nat list"

definition newDispatcher :: dispatcher where
  "newDispatcher = \<lparr>chain = [], failuresLogged = []\<rparr>"

text \<open>
  \<open>handle\<close> appends a link and returns. The new link runs at once when the tail before
  it has settled (or there is none), and waits otherwise.
\<close>

definition handle :: "dispatcher \<Rightarrow> dispatcher" where
  "handle d =
     d\<lparr>chain := chain d @
          [if chain d = [] \<or> last (chain d) = Settled then Running else Waiting]\<rparr>"

text \<open>When a link settles, the link appended after it, if there is one, starts.\<close>

fun beginNext :: "link_status list \<Rightarrow> link_status list" where
  "beginNext (Waiting # rest) = Running # rest"
| "beginNext links = links"

text \<open>The handler body of link \<open>k\<close> settles; nothing happens unless it is running.\<close>

fun settleLink :: "nat \<Rightarrow> link_status list \<Rightarrow> link_status list" where
  "settleLink k [] = []"
| "settleLink 0 (Running # rest) = Settled # beginNext rest"
| "settleLink 0 (s # rest) = s # rest"
| "settleLink (Suc k) (s # rest) = s # settleLink k rest"

definition isRunning :: "dispatcher \<Rightarrow> nat \<Rightarrow> bool" where
  "isRunning d k = (k < length (chain d) \<and> chain d ! k = Running)"

definition bodySettles :: "nat \<Rightarrow> bool \<Rightarrow> dispatcher \<Rightarrow> dispatcher" where
  "bodySettles k ok d =
     (if isRunning d k
      then d\<lparr>chain := settleLink k (chain d),
             failuresLogged := failuresLogged d @ (if ok then [] else [k])\<rparr>
      else d)"

datatype dispatch_event = Handle | BodySettles nat bool

fun dispatch_step :: "dispatch_event \<Rightarrow> dispatcher \<Rightarrow> dispatcher" where
  "dispatch_step Handle d = handle d"
| "dispatch_step (BodySettles k ok) d = bodySettles k ok d"

definition dispatch_run :: "dispatch_event list \<Rightarrow> dispatcher" where
  "dispatch_run evs = fold dispatch_step evs newDispatcher"

text \<open>A body has begun when its link is running or settled.\<close>

definition hasBegun :: "dispatcher \<Rightarrow> nat \<Rightarrow> bool" where
  "hasBegun d k = (k < length (chain d) \<and> chain d ! k \<noteq> Waiting)"

definition hasSettled :: "dispatcher \<Rightarrow> nat \<Rightarrow> bool" where
  "hasSettled d k = (k < length (chain d) \<and> chain d ! k = Settled)"

text \<open>The shape of a chain: settled links, then at most one running, then waiting ones.\<close>

fun chainOrdered :: "link_status list \<Rightarrow> bool" where
  "chainOrdered [] = True"
| "chainOrdered (Settled # rest) = chainOrdered rest"
| "chainOrdered (Running # rest) = list_all (\<lambda>s. s = Waiting) rest"
| "chainOrdered (Waiting # rest) = False"

section \<open>Properties\<close>

subsection \<open>What each step of the watchdog leaves alone\<close>

lemmas prim_defs = call_def dropTimer_def addTimer_def setInterval_def setTimeout_def
  clearInterval_def clearTimeout_def clearPoll_def clearHelloWatch_def
  resetHelloStallCounter_def clearResumeState_def gatewayIsConnected_def
  gateway_disconnect_def gateway_connect_def sawConnectedOf_def

lemma map_of_filter_ne: "map_of (filter (\<lambda>t. fst t \<noteq> i) xs) t = (if t = i then None else map_of xs t)"
  by (induction xs) auto

lemma timers_clearPoll: "timers (clearPoll w) = filter (\<lambda>t. Some (fst t) \<noteq> helloConnectedPollId w) (timers w)"
  by (auto simp: prim_defs split: option.splits)

lemma timers_clearHelloWatch:
  "timers (clearHelloWatch w) =
     filter (\<lambda>t. Some (fst t) \<noteq> helloConnectedPollId w \<and> Some (fst t) \<noteq> helloTimeoutId w) (timers w)"
  by (auto simp: prim_defs split: option.splits intro: filter_cong)

lemma clearPoll_frame [simp]:
  "gateway (clearPoll w) = gateway w"
  "abortSignal (clearPoll w) = abortSignal w"
  "nextTimerId (clearPoll w) = nextTimerId w"
  "debugListener (clearPoll w) = debugListener w"
  "pendingGatewayErrors (clearPoll w) = pendingGatewayErrors w"
  "voiceManagerRef_current (clearPoll w) = voiceManagerRef_current w"
  "helloTimeoutId (clearPoll w) = helloTimeoutId w"
  "helloConnectedPollId (clearPoll w) = None"
  "consecutiveHelloStalls (clearPoll w) = consecutiveHelloStalls w"
  "sawConnected (clearPoll w) = sawConnected w"
  "sawDisallowedIntents (clearPoll w) = sawDisallowedIntents w"
  "effects (clearPoll w) =
     effects w @ (case helloConnectedPollId w of None \<Rightarrow> [] | Some i \<Rightarrow> [ClearInterval i])"
  by (simp_all add: prim_defs split: option.splits)

lemma clearHelloWatch_frame [simp]:
  "gateway (clearHelloWatch w) = gateway w"
  "abortSignal (clearHelloWatch w) = abortSignal w"
  "nextTimerId (clearHelloWatch w) = nextTimerId w"
  "debugListener (clearHelloWatch w) = debugListener w"
  "pendingGatewayErrors (clearHelloWatch w) = pendingGatewayErrors w"
  "voiceManagerRef_current (clearHelloWatch w) = voiceManagerRef_current w"
  "helloTimeoutId (clearHelloWatch w) = None"
  "helloConnectedPollId (clearHelloWatch w) = None"
  "consecutiveHelloStalls (clearHelloWatch w) = consecutiveHelloStalls w"
  "sawConnected (clearHelloWatch w) = sawConnected w"
  "sawDisallowedIntents (clearHelloWatch w) = sawDisallowedIntents w"
  "effects (clearHelloWatch w) =
     effects w @ (case helloTimeoutId w of None \<Rightarrow> [] | Some t \<Rightarrow> [ClearTimeout t])
       @ (case helloConnectedPollId w of None \<Rightarrow> [] | Some i \<Rightarrow> [ClearInterval i])"
  by (simp_all add: prim_defs split: option.splits)

lemma helloTimeout_frame [simp]:
  "abortSignal (helloTimeout c w) = abortSignal w"
  "nextTimerId (helloTimeout c w) = nextTimerId w"
  "debugListener (helloTimeout c w) = debugListener w"
  "pendingGatewayErrors (helloTimeout c w) = pendingGatewayErrors w"
  "voiceManagerRef_current (helloTimeout c w) = voiceManagerRef_current w"
  "helloTimeoutId (helloTimeout c w) = None"
  "helloConnectedPollId (helloTimeout c w) = None"
  "sawConnected (helloTimeout c w) = sawConnected w"
  "sawDisallowedIntents (helloTimeout c w) = sawDisallowedIntents w"
  "timers (helloTimeout c w) = timers (clearPoll w)"
  by (simp_all add: helloTimeout_def Let_def resetHelloStallCounter_def clearResumeState_def
      gateway_disconnect_def gateway_connect_def call_def split: option.splits)

lemma helloConnectedPoll_frame [simp]:
  "gateway (helloConnectedPoll c w) = gateway w"
  "abortSignal (helloConnectedPoll c w) = abortSignal w"
  "nextTimerId (helloConnectedPoll c w) = nextTimerId w"
  "debugListener (helloConnectedPoll c w) = debugListener w"
  "pendingGatewayErrors (helloConnectedPoll c w) = pendingGatewayErrors w"
  "voiceManagerRef_current (helloConnectedPoll c w) = voiceManagerRef_current w"
  "helloTimeoutId (helloConnectedPoll c w) = helloTimeoutId w"
  "sawDisallowedIntents (helloConnectedPoll c w) = sawDisallowedIntents w"
  "length (sawConnected (helloConnectedPoll c w)) = length (sawConnected w)"
  by (simp_all add: helloConnectedPoll_def resetHelloStallCounter_def)

lemma onGatewayDebug_frame [simp]:
  "gateway (onGatewayDebug m w) = gateway w"
  "abortSignal (onGatewayDebug m w) = abortSignal w"
  "debugListener (onGatewayDebug m w) = debugListener w"
  "pendingGatewayErrors (onGatewayDebug m w) = pendingGatewayErrors w"
  "voiceManagerRef_current (onGatewayDebug m w) = voiceManagerRef_current w"
  "sawDisallowedIntents (onGatewayDebug m w) = sawDisallowedIntents w"
  by (simp_all add: onGatewayDebug_def Let_def resetHelloStallCounter_def setInterval_def
      setTimeout_def addTimer_def call_def split: prod.splits)

lemma tracked_id:
  "timerTracked w t \<Longrightarrow> helloTimeoutId w = Some (fst t) \<or> helloConnectedPollId w = Some (fst t)"
  by (cases t; cases "snd t") auto

lemma inv_clearHelloWatch:
  assumes "watchdog_inv w" shows "timers (clearHelloWatch w) = []"
proof -
  have "\<not> (Some (fst t) \<noteq> helloConnectedPollId w \<and> Some (fst t) \<noteq> helloTimeoutId w)"
    if "t \<in> set (timers w)" for t
  proof -
    have "timerTracked w t"
      using assms that by (simp add: watchdog_inv_def list_all_iff)
    from tracked_id [OF this] show ?thesis by auto
  qed
  then show ?thesis
    by (simp add: timers_clearHelloWatch filter_empty_conv)
qed

lemma timerTracked_cong:
  assumes "helloTimeoutId w' = helloTimeoutId w"
    and "helloConnectedPollId w' = helloConnectedPollId w"
    and "nextTimerId w' = nextTimerId w"
    and "length (sawConnected w') = length (sawConnected w)"
  shows "timerTracked w' t = timerTracked w t"
proof (cases t)
  case (Pair i cb)
  then show ?thesis using assms by (cases cb) simp_all
qed

lemma inv_cong:
  assumes "helloTimeoutId w' = helloTimeoutId w"
    and "helloConnectedPollId w' = helloConnectedPollId w"
    and "nextTimerId w' = nextTimerId w"
    and "length (sawConnected w') = length (sawConnected w)"
    and "timers w' = timers w"
  shows "watchdog_inv w' = watchdog_inv w"
proof -
  have "timerTracked w' = timerTracked w"
    by (rule ext) (rule timerTracked_cong [OF assms(1-4)])
  then show ?thesis
    by (simp add: watchdog_inv_def assms(5))
qed

lemma inv_resetHelloStallCounter [simp]:
  "watchdog_inv (resetHelloStallCounter w) = watchdog_inv w"
  by (rule inv_cong) (simp_all add: resetHelloStallCounter_def)

lemma inv_empty: "timers w = [] \<Longrightarrow> watchdog_inv w"
  by (simp add: watchdog_inv_def)









subsection \<open>Events around the run\<close>

lemma fireTimer_frame [simp]:
  "abortSignal (fireTimer i w) = abortSignal w"
  "nextTimerId (fireTimer i w) = nextTimerId w"
  "debugListener (fireTimer i w) = debugListener w"
  "pendingGatewayErrors (fireTimer i w) = pendingGatewayErrors w"
  "voiceManagerRef_current (fireTimer i w) = voiceManagerRef_current w"
  "sawDisallowedIntents (fireTimer i w) = sawDisallowedIntents w"
  by (simp_all add: fireTimer_def dropTimer_def split: option.splits timer_callback.splits)

lemma onAbort_frame [simp]:
  "abortSignal (onAbort p w) = abortSignal w"
  "timers (onAbort p w) = timers w"
  "nextTimerId (onAbort p w) = nextTimerId w"
  "debugListener (onAbort p w) = debugListener w"
  "pendingGatewayErrors (onAbort p w) = pendingGatewayErrors w"
  "voiceManagerRef_current (onAbort p w) = voiceManagerRef_current w"
  "helloTimeoutId (onAbort p w) = helloTimeoutId w"
  "helloConnectedPollId (onAbort p w) = helloConnectedPollId w"
  "consecutiveHelloStalls (onAbort p w) = consecutiveHelloStalls w"
  "sawConnected (onAbort p w) = sawConnected w"
  "sawDisallowedIntents (onAbort p w) = sawDisallowedIntents w"
  by (simp_all add: onAbort_def Let_def call_def split: option.splits)

lemma dispatchAbort_frame [simp]:
  "timers (dispatchAbort p w) = timers w"
  "nextTimerId (dispatchAbort p w) = nextTimerId w"
  "debugListener (dispatchAbort p w) = debugListener w"
  "pendingGatewayErrors (dispatchAbort p w) = pendingGatewayErrors w"
  "voiceManagerRef_current (dispatchAbort p w) = voiceManagerRef_current w"
  "helloTimeoutId (dispatchAbort p w) = helloTimeoutId w"
  "helloConnectedPollId (dispatchAbort p w) = helloConnectedPollId w"
  "consecutiveHelloStalls (dispatchAbort p w) = consecutiveHelloStalls w"
  "sawConnected (dispatchAbort p w) = sawConnected w"
  "sawDisallowedIntents (dispatchAbort p w) = sawDisallowedIntents w"
  by (simp_all add: dispatchAbort_def Let_def split: option.splits)

lemma env_step_frame [simp]:
  "debugListener (env_step p ev w) = debugListener w"
  "pendingGatewayErrors (env_step p ev w) = pendingGatewayErrors w"
  "voiceManagerRef_current (env_step p ev w) = voiceManagerRef_current w"
  "sawDisallowedIntents (env_step p ev w) = sawDisallowedIntents w"
  by (simp_all add: env_step_def split: env_event.splits option.splits)

lemma env_run_Nil [simp]: "env_run p [] w = w"
  by (simp add: env_run_def)

lemma env_run_Cons [simp]: "env_run p (ev # evs) w = env_run p evs (env_step p ev w)"
  by (simp add: env_run_def)

lemma env_run_append: "env_run p (xs @ ys) w = env_run p ys (env_run p xs w)"
  by (simp add: env_run_def)

lemma env_run_frame [simp]:
  "debugListener (env_run p evs w) = debugListener w"
  "pendingGatewayErrors (env_run p evs w) = pendingGatewayErrors w"
  "voiceManagerRef_current (env_run p evs w) = voiceManagerRef_current w"
  "sawDisallowedIntents (env_run p evs w) = sawDisallowedIntents w"
  by (induction evs arbitrary: w; simp)+



lemma saw_onGatewayDebug:
  "sawConnectedOf w c \<Longrightarrow> sawConnectedOf (onGatewayDebug m w) c"
  by (simp add: onGatewayDebug_def Let_def sawConnectedOf_def setInterval_def setTimeout_def
      addTimer_def call_def resetHelloStallCounter_def nth_append)

lemma list_update_keeps_True: "c < length xs \<Longrightarrow> xs ! c \<Longrightarrow> (xs[k := True]) ! c"
  by (cases "k = c") simp_all

lemma saw_fireTimer:
  "sawConnectedOf w c \<Longrightarrow> sawConnectedOf (fireTimer i w) c"
  by (auto simp: fireTimer_def sawConnectedOf_def helloConnectedPoll_def dropTimer_def
      resetHelloStallCounter_def list_update_keeps_True split: option.splits timer_callback.splits)

lemma saw_env_step:
  "sawConnectedOf w c \<Longrightarrow> sawConnectedOf (env_step p ev w) c"
proof (cases ev)
  case (EmitDebug m)
  assume "sawConnectedOf w c"
  then show ?thesis using EmitDebug by (simp add: env_step_def saw_onGatewayDebug)
next
  case (TimerFires i)
  assume "sawConnectedOf w c"
  then show ?thesis using TimerFires by (simp add: env_step_def saw_fireTimer)
next
  case (GatewaySetsConnected b)
  assume "sawConnectedOf w c"
  then show ?thesis using GatewaySetsConnected
    by (simp add: env_step_def sawConnectedOf_def split: option.splits)
next
  case AbortSignalled
  assume "sawConnectedOf w c"
  then show ?thesis using AbortSignalled by (simp add: env_step_def sawConnectedOf_def)
qed

lemma saw_env_run:
  "sawConnectedOf w c \<Longrightarrow> sawConnectedOf (env_run p evs w) c"
  by (induction evs arbitrary: w) (simp_all add: saw_env_step)

lemma poll_sets_saw:
  assumes "map_of (timers w) i = Some (HelloConnectedPoll c)"
    and "c < length (sawConnected w)" and "gatewayIsConnected w"
  shows "sawConnectedOf (fireTimer i w) c"
  using assms by (simp add: fireTimer_def helloConnectedPoll_def sawConnectedOf_def
      resetHelloStallCounter_def)

lemma helloTimeout_confirmed:
  assumes "sawConnectedOf w c \<or> gatewayIsConnected w"
  shows "helloTimeout c w = (clearPoll w)\<lparr>consecutiveHelloStalls := 0, helloTimeoutId := None\<rparr>"
  using assms
  by (auto simp add: helloTimeout_def Let_def resetHelloStallCounter_def sawConnectedOf_def
      gatewayIsConnected_def)

subsection \<open>Concrete runs, evaluated\<close>

lemma opened_msg [simp]:
  "str_includes ''WebSocket connection opened'' ''WebSocket connection closed'' = False"
  "str_includes ''WebSocket connection opened'' ''WebSocket connection opened'' = True"
  by simp_all

lemma onGatewayDebug_opened:
  "onGatewayDebug ''WebSocket connection opened'' w =
     (clearHelloWatch w)
       \<lparr>sawConnected := sawConnected w @ [gatewayIsConnected w],
        timers := timers (clearHelloWatch w)
           @ [(nextTimerId w, HelloConnectedPoll (length (sawConnected w))),
              (Suc (nextTimerId w), HelloTimeout (length (sawConnected w)))],
        nextTimerId := nextTimerId w + 2,
        effects := effects (clearHelloWatch w)
           @ [SetInterval (nextTimerId w) 250, SetTimeout (Suc (nextTimerId w)) 30000],
        helloConnectedPollId := Some (nextTimerId w),
        helloTimeoutId := Some (Suc (nextTimerId w))\<rparr>"
  by (simp add: onGatewayDebug_def Let_def setInterval_def setTimeout_def addTimer_def call_def
      gatewayIsConnected_def HELLO_CONNECTED_POLL_MS_def HELLO_TIMEOUT_MS_def)

lemma wired_eq:
  "wired g =
     \<lparr>gateway = Some g, abortSignal = None, timers = [], nextTimerId = 1,
      debugListener = True, pendingGatewayErrors = None, voiceManagerRef_current = False,
      helloTimeoutId = None, helloConnectedPollId = None, consecutiveHelloStalls = 0,
      sawConnected = [], sawDisallowedIntents = False,
      effects = [RegisterGateway ''default'', AttachGatewayLogging, EmitterOn_debug]\<rparr>"
  by (simp add: wired_def beforeTry_def startWorld_def harness_def call_def Let_def)

lemma watching_connected_eq:
  "watching_connected =
     \<lparr>gateway = Some (gw_resumable\<lparr>isConnected := True\<rparr>), abortSignal = None,
      timers = [(1, HelloConnectedPoll 0), (2, HelloTimeout 0)], nextTimerId = 3,
      debugListener = True, pendingGatewayErrors = None, voiceManagerRef_current = False,
      helloTimeoutId = Some 2, helloConnectedPollId = Some 1, consecutiveHelloStalls = 0,
      sawConnected = [False], sawDisallowedIntents = False,
      effects = [RegisterGateway ''default'', AttachGatewayLogging, EmitterOn_debug,
                 SetInterval 1 250, SetTimeout 2 30000]\<rparr>"
  by (simp add: watching_connected_def env_run_def env_step_def wired_eq onGatewayDebug_opened
      clearHelloWatch_def clearPoll_def gatewayIsConnected_def gw_resumable_def)

subsection \<open>C3: the poll confirms the handshake\<close>

text \<open>
  C3, as stated, fails. A connection has opened, the gateway library has set
  \<open>isConnected\<close>, and the poll (timer 1) fires while the deadline (timer 2) is pending:
  the poll observes \<open>isConnected\<close>, and afterwards \<open>helloTimeoutId\<close> still names timer 2
  and the host still holds it. The deadline timer is not cancelled.
\<close>

theorem C3_deadline_left_pending:
  "helloConnectedPollId watching_connected = Some 1
   \<and> map_of (timers watching_connected) 1 = Some (HelloConnectedPoll 0)
   \<and> gatewayIsConnected watching_connected
   \<and> helloTimeoutId watching_connected = Some 2
   \<and> map_of (timers watching_connected) 2 = Some (HelloTimeout 0)
   \<and> helloTimeoutId (fireTimer 1 watching_connected) = Some 2
   \<and> map_of (timers (fireTimer 1 watching_connected)) 2 = Some (HelloTimeout 0)"
  by (simp add: watching_connected_eq fireTimer_def helloConnectedPoll_def prim_defs)

text \<open>
  C3, amended. Whenever the confirmation poll of a watch cycle fires while the handle's
  \<open>isConnected\<close> is true and the cycle's deadline timer is still pending, the poll timer
  is cancelled (one \<open>clearInterval\<close> call, \<open>helloConnectedPollId\<close> unset, the handle gone
  from the host), \<open>consecutiveHelloStalls\<close> is 0 and the cycle's \<open>sawConnected\<close> is set;
  the deadline timer is left pending, still named by \<open>helloTimeoutId\<close>.
\<close>

theorem C3_poll_confirms:
  assumes "helloConnectedPollId w = Some i"
    and "map_of (timers w) i = Some (HelloConnectedPoll c)"
    and "helloTimeoutId w = Some t"
    and "map_of (timers w) t = Some (HelloTimeout c)"
    and "gatewayIsConnected w"
    and "c < length (sawConnected w)"
  shows "consecutiveHelloStalls (fireTimer i w) = 0
    \<and> helloConnectedPollId (fireTimer i w) = None
    \<and> map_of (timers (fireTimer i w)) i = None
    \<and> effects (fireTimer i w) = effects w @ [ClearInterval i]
    \<and> sawConnectedOf (fireTimer i w) c
    \<and> helloTimeoutId (fireTimer i w) = Some t
    \<and> map_of (timers (fireTimer i w)) t = Some (HelloTimeout c)"
proof -
  have "t \<noteq> i" using assms(2,4) by auto
  then show ?thesis
    using assms
    by (simp add: fireTimer_def helloConnectedPoll_def prim_defs map_of_filter_ne)
qed

text \<open>The amended C3 at the run above: poll 1 and deadline 2 of watch cycle 0.\<close>

theorem C3_poll_confirms_witness:
  "consecutiveHelloStalls (fireTimer 1 watching_connected) = 0
   \<and> helloConnectedPollId (fireTimer 1 watching_connected) = None
   \<and> map_of (timers (fireTimer 1 watching_connected)) 1 = None
   \<and> effects (fireTimer 1 watching_connected) = effects watching_connected @ [ClearInterval 1]
   \<and> sawConnectedOf (fireTimer 1 watching_connected) 0
   \<and> helloTimeoutId (fireTimer 1 watching_connected) = Some 2
   \<and> map_of (timers (fireTimer 1 watching_connected)) 2 = Some (HelloTimeout 0)"
  by (rule C3_poll_confirms [of watching_connected 1 0 2])
     (simp_all add: watching_connected_eq gatewayIsConnected_def)

subsection \<open>The deadline closure, case by case\<close>

lemma confirmed_in_window_eq:
  "confirmed_in_window =
     \<lparr>gateway = Some (gw_resumable\<lparr>isConnected := True\<rparr>), abortSignal = None,
      timers = [(2, HelloTimeout 0)], nextTimerId = 3,
      debugListener = True, pendingGatewayErrors = None, voiceManagerRef_current = False,
      helloTimeoutId = Some 2, helloConnectedPollId = None, consecutiveHelloStalls = 0,
      sawConnected = [True], sawDisallowedIntents = False,
      effects = [RegisterGateway ''default'', AttachGatewayLogging, EmitterOn_debug,
                 SetInterval 1 250, SetTimeout 2 30000, ClearInterval 1]\<rparr>"
  by (simp add: confirmed_in_window_def watching_connected_eq fireTimer_def
      helloConnectedPoll_def prim_defs)

lemma clearPoll_reads [simp]:
  "sawConnectedOf (clearPoll w) c = sawConnectedOf w c"
  "gatewayIsConnected (clearPoll w) = gatewayIsConnected w"
  by (simp_all add: sawConnectedOf_def gatewayIsConnected_def)

lemma helloTimeout_stall:
  assumes "gateway w = Some g" and "\<not> isConnected g" and "\<not> sawConnectedOf w c"
  shows "helloTimeout c w =
     (clearPoll w)
       \<lparr>consecutiveHelloStalls :=
          (if MAX_CONSECUTIVE_HELLO_STALLS \<le> Suc (consecutiveHelloStalls w) then 0
           else Suc (consecutiveHelloStalls w)),
        gateway :=
          Some (if MAX_CONSECUTIVE_HELLO_STALLS \<le> Suc (consecutiveHelloStalls w)
                then resumeCleared g else g),
        effects := effects (clearPoll w) @
          [Runtime_log (Suc (consecutiveHelloStalls w))
             (MAX_CONSECUTIVE_HELLO_STALLS \<le> Suc (consecutiveHelloStalls w)),
           Gateway_disconnect,
           Gateway_connect (\<not> MAX_CONSECUTIVE_HELLO_STALLS \<le> Suc (consecutiveHelloStalls w))],
        helloTimeoutId := None\<rparr>"
proof -
  have nc: "\<not> gatewayIsConnected w"
    using assms(1,2) by (simp add: gatewayIsConnected_def)
  have g: "gateway (clearPoll w) = Some g"
    using assms(1) by simp
  show ?thesis
    using nc assms(3) g
    by (cases "state g")
       (simp_all add: helloTimeout_def Let_def resetHelloStallCounter_def clearResumeState_def
          resumeCleared_def gateway_disconnect_def gateway_connect_def call_def)
qed


subsection \<open>C10: the deadline fires after the handshake was confirmed\<close>

text \<open>
  C10. The deadline timer of a watch cycle fires, and either the poll of that cycle
  has, at some earlier point, fired while \<open>isConnected\<close> was true (whatever happened
  since), or \<open>isConnected\<close> is true now. Then the closure sets the stall counter to 0,
  leaves the handle as it is (no \<open>clearResumeState\<close>), and makes no call to the
  gateway: the only call it may make is the \<open>clearInterval\<close> of a poll still set.
\<close>

theorem C10_confirmed_deadline_only_resets:
  assumes "map_of (timers w) t = Some (HelloTimeout c)"
    and "(\<exists>w0 i evs. map_of (timers w0) i = Some (HelloConnectedPoll c)
              \<and> c < length (sawConnected w0) \<and> gatewayIsConnected w0
              \<and> w = env_run p evs (fireTimer i w0))
         \<or> gatewayIsConnected w"
  shows "consecutiveHelloStalls (fireTimer t w) = 0
    \<and> gateway (fireTimer t w) = gateway w
    \<and> filter isGatewayCall (effects (fireTimer t w)) = filter isGatewayCall (effects w)
    \<and> effects (fireTimer t w) =
        effects w @ (case helloConnectedPollId w of None \<Rightarrow> [] | Some i \<Rightarrow> [ClearInterval i])"
proof -
  have "sawConnectedOf w c \<or> gatewayIsConnected w"
    using assms(2) poll_sets_saw saw_env_run by blast
  then have c: "sawConnectedOf (dropTimer t w) c \<or> gatewayIsConnected (dropTimer t w)"
    by (simp add: sawConnectedOf_def gatewayIsConnected_def dropTimer_def)
  show ?thesis
    using assms(1)
    by (simp add: fireTimer_def helloTimeout_confirmed [OF c])
       (simp add: dropTimer_def split: option.splits)
qed

text \<open>
  C10 at the concrete run: the poll of cycle 0 (timer 1) saw the connection, then the
  deadline (timer 2) fires.
\<close>

theorem C10_confirmed_deadline_only_resets_witness:
  "map_of (timers confirmed_in_window) 2 = Some (HelloTimeout 0)
   \<and> consecutiveHelloStalls (fireTimer 2 confirmed_in_window) = 0
   \<and> gateway (fireTimer 2 confirmed_in_window) = gateway confirmed_in_window
   \<and> filter isGatewayCall (effects (fireTimer 2 confirmed_in_window))
       = filter isGatewayCall (effects confirmed_in_window)
   \<and> effects (fireTimer 2 confirmed_in_window) = effects confirmed_in_window"
proof -
  have t: "map_of (timers confirmed_in_window) 2 = Some (HelloTimeout 0)"
    by (simp add: confirmed_in_window_eq)
  have "\<exists>w0 i evs. map_of (timers w0) i = Some (HelloConnectedPoll 0)
          \<and> 0 < length (sawConnected w0) \<and> gatewayIsConnected w0
          \<and> confirmed_in_window = env_run harness evs (fireTimer i w0)"
    by (rule exI [of _ watching_connected], rule exI [of _ 1], rule exI [of _ "[]"])
       (simp add: confirmed_in_window_def watching_connected_eq gatewayIsConnected_def)
  then have
    "(\<exists>w0 i evs. map_of (timers w0) i = Some (HelloConnectedPoll 0)
          \<and> 0 < length (sawConnected w0) \<and> gatewayIsConnected w0
          \<and> confirmed_in_window = env_run harness evs (fireTimer i w0))
     \<or> gatewayIsConnected confirmed_in_window" ..
  from C10_confirmed_deadline_only_resets [OF t this] t show ?thesis
    by (simp add: confirmed_in_window_eq)
qed

subsection \<open>C6: the connection closes after it had been live\<close>

lemma beforeTry_frame [simp]:
  "timers (beforeTry p w) = timers w"
  "nextTimerId (beforeTry p w) = nextTimerId w"
  "debugListener (beforeTry p w) = (emitterPresent p \<or> debugListener w)"
  "pendingGatewayErrors (beforeTry p w) = pendingGatewayErrors w"
  "voiceManagerRef_current (beforeTry p w) = voiceManagerRef_current w"
  "helloTimeoutId (beforeTry p w) = None"
  "helloConnectedPollId (beforeTry p w) = None"
  "consecutiveHelloStalls (beforeTry p w) = 0"
  "sawConnected (beforeTry p w) = []"
  "sawDisallowedIntents (beforeTry p w) = False"
  by (simp_all add: beforeTry_def Let_def call_def split: option.splits)

lemma startWorld_sel [simp]:
  "gateway (startWorld g s q v) = g"
  "abortSignal (startWorld g s q v) = s"
  "timers (startWorld g s q v) = []"
  "nextTimerId (startWorld g s q v) = 1"
  "debugListener (startWorld g s q v) = False"
  "pendingGatewayErrors (startWorld g s q v) = q"
  "voiceManagerRef_current (startWorld g s q v) = v"
  "effects (startWorld g s q v) = []"
  by (simp_all add: startWorld_def)






subsection \<open>C4: stalls below the limit\<close>

lemma polls_idle:
  assumes "map_of (timers w) i = Some (HelloConnectedPoll c)" and "\<not> gatewayIsConnected w"
  shows "env_run p (replicate k (TimerFires i)) w = w"
proof (induction k)
  case 0
  show ?case by simp
next
  case (Suc k)
  have "fireTimer i w = w"
    using assms by (simp add: fireTimer_def helloConnectedPoll_def)
  then show ?case using Suc by (simp add: env_step_def)
qed

lemma filter_gateway_clear [simp]:
  "filter isGatewayCall (case x of None \<Rightarrow> [] | Some t \<Rightarrow> [ClearTimeout t]) = []"
  "filter isGatewayCall (case y of None \<Rightarrow> [] | Some i \<Rightarrow> [ClearInterval i]) = []"
  by (simp_all split: option.splits)

lemma one_stall_cycle:
  fixes p :: params and k :: nat
  assumes "watchdog_inv w" and "debugListener w" and "gateway w = Some g"
    and "\<not> isConnected g"
    and "Suc (consecutiveHelloStalls w) < MAX_CONSECUTIVE_HELLO_STALLS"
  defines "w' \<equiv> env_run p (EmitDebug ''WebSocket connection opened''
                    # replicate k (TimerFires (nextTimerId w))
                    @ [TimerFires (Suc (nextTimerId w))]) w"
  shows "gateway w' = Some g"
    and "consecutiveHelloStalls w' = Suc (consecutiveHelloStalls w)"
    and "filter isGatewayCall (effects w') =
           filter isGatewayCall (effects w) @ [Gateway_disconnect, Gateway_connect True]"
    and "nextTimerId w' = nextTimerId w + 2"
    and "timers w' = []"
    and "debugListener w'"
proof -
  let ?w1 = "onGatewayDebug ''WebSocket connection opened'' w"
  have e: "timers (clearHelloWatch w) = []"
    by (rule inv_clearHelloWatch [OF assms(1)])
  have nc: "\<not> gatewayIsConnected w"
    using assms(3,4) by (simp add: gatewayIsConnected_def)
  have t1: "timers ?w1 = [(nextTimerId w, HelloConnectedPoll (length (sawConnected w))),
                          (Suc (nextTimerId w), HelloTimeout (length (sawConnected w)))]"
    by (simp add: onGatewayDebug_opened e)
  have nc1: "\<not> gatewayIsConnected ?w1"
    using nc by (simp add: gatewayIsConnected_def)
  have idle: "env_run p (replicate k (TimerFires (nextTimerId w))) ?w1 = ?w1"
    by (rule polls_idle [OF _ nc1]) (simp add: t1)
  have w': "w' = fireTimer (Suc (nextTimerId w)) ?w1"
    using assms(2) by (simp add: w'_def env_run_append idle env_step_def)
  let ?w2 = "dropTimer (Suc (nextTimerId w)) ?w1"
  have f: "fireTimer (Suc (nextTimerId w)) ?w1 = helloTimeout (length (sawConnected w)) ?w2"
    by (simp add: fireTimer_def t1)
  have g2: "gateway ?w2 = Some g"
    using assms(3) by (simp add: dropTimer_def)
  have s2: "\<not> sawConnectedOf ?w2 (length (sawConnected w))"
    using nc by (simp add: sawConnectedOf_def dropTimer_def onGatewayDebug_opened)
  have c2: "consecutiveHelloStalls ?w2 = consecutiveHelloStalls w"
    by (simp add: dropTimer_def onGatewayDebug_opened)
  note st = helloTimeout_stall [OF g2 assms(4) s2, unfolded c2]
  have lim: "\<not> MAX_CONSECUTIVE_HELLO_STALLS \<le> Suc (consecutiveHelloStalls w)"
    using assms(5) by simp
  show "gateway w' = Some g"
    unfolding w' f st by (simp add: lim)
  show "consecutiveHelloStalls w' = Suc (consecutiveHelloStalls w)"
    unfolding w' f st by (simp add: lim)
  show "filter isGatewayCall (effects w') =
           filter isGatewayCall (effects w) @ [Gateway_disconnect, Gateway_connect True]"
    unfolding w' f st by (simp add: lim dropTimer_def onGatewayDebug_opened)
  show "nextTimerId w' = nextTimerId w + 2"
    unfolding w' f st by (simp add: dropTimer_def onGatewayDebug_opened)
  show "timers w' = []"
    unfolding w' f st by (simp add: timers_clearPoll dropTimer_def onGatewayDebug_opened e)
  show "debugListener w'"
    using assms(2) by (simp add: w'_def)
qed

text \<open>
  C4. From any state of a wired run in which the handle is not connected, take \<open>n\<close>
  watch cycles in a row that each end in the deadline (the connection opens, the poll
  fires any number of times, the deadline fires), with the stall counter staying below
  3. Then each of the \<open>n\<close> timeouts has called \<open>disconnect()\<close> followed by
  \<open>connect(true)\<close>, these are all the calls made to the gateway, the counter has gone
  up by \<open>n\<close>, and the handle, with its \<open>sessionId\<close>, \<open>resumeGatewayUrl\<close> and both
  \<open>sequence\<close> fields, is as it was.
\<close>

theorem C4_stalls_below_limit_resume:
  assumes "watchdog_inv w" and "debugListener w" and "gateway w = Some g"
    and "\<not> isConnected g"
    and "consecutiveHelloStalls w + n < MAX_CONSECUTIVE_HELLO_STALLS"
  shows "gateway (env_run p (stallCycles (nextTimerId w) polls n) w) = Some g
    \<and> consecutiveHelloStalls (env_run p (stallCycles (nextTimerId w) polls n) w)
        = consecutiveHelloStalls w + n
    \<and> filter isGatewayCall (effects (env_run p (stallCycles (nextTimerId w) polls n) w))
        = filter isGatewayCall (effects w)
          @ concat (replicate n [Gateway_disconnect, Gateway_connect True])"
  using assms
proof (induction n arbitrary: w)
  case 0
  then show ?case by simp
next
  case (Suc n)
  let ?cycle = "EmitDebug ''WebSocket connection opened''
                  # replicate polls (TimerFires (nextTimerId w))
                  @ [TimerFires (Suc (nextTimerId w))]"
  let ?w' = "env_run p ?cycle w"
  have lim: "Suc (consecutiveHelloStalls w) < MAX_CONSECUTIVE_HELLO_STALLS"
    using Suc.prems(5) by simp
  note c = one_stall_cycle [OF Suc.prems(1-4) lim, of p polls]
  have split: "env_run p (stallCycles (nextTimerId w) polls (Suc n)) w
                 = env_run p (stallCycles (nextTimerId ?w') polls n) ?w'"
    using c(4) by (simp add: env_run_def)
  have lim': "consecutiveHelloStalls ?w' + n < MAX_CONSECUTIVE_HELLO_STALLS"
    using Suc.prems(5) c(2) by simp
  from Suc.IH [OF inv_empty [OF c(5)] c(6) c(1) Suc.prems(4) lim']
  show ?case
    unfolding split using c(2,3) by simp
qed

text \<open>C4 at the wired run on a fresh handle: two stalls, three polls in each.\<close>

theorem C4_stalls_below_limit_resume_witness:
  "watchdog_inv (wired gw_resumable) \<and> debugListener (wired gw_resumable)
   \<and> gateway (wired gw_resumable) = Some gw_resumable \<and> \<not> isConnected gw_resumable
   \<and> consecutiveHelloStalls (wired gw_resumable) + 2 < MAX_CONSECUTIVE_HELLO_STALLS
   \<and> gateway (env_run harness (stallCycles 1 3 2) (wired gw_resumable)) = Some gw_resumable
   \<and> consecutiveHelloStalls (env_run harness (stallCycles 1 3 2) (wired gw_resumable)) = 2
   \<and> filter isGatewayCall (effects (env_run harness (stallCycles 1 3 2) (wired gw_resumable)))
       = [Gateway_disconnect, Gateway_connect True, Gateway_disconnect, Gateway_connect True]"
proof -
  have h: "watchdog_inv (wired gw_resumable)" "debugListener (wired gw_resumable)"
    "gateway (wired gw_resumable) = Some gw_resumable" "\<not> isConnected gw_resumable"
    "consecutiveHelloStalls (wired gw_resumable) + 2 < MAX_CONSECUTIVE_HELLO_STALLS"
    by (simp_all add: wired_eq watchdog_inv_def gw_resumable_def MAX_CONSECUTIVE_HELLO_STALLS_def)
  have n: "nextTimerId (wired gw_resumable) = 1"
    by (simp add: wired_eq)
  have r: "concat (replicate 2 [Gateway_disconnect, Gateway_connect True])
      = [Gateway_disconnect, Gateway_connect True, Gateway_disconnect, Gateway_connect True]"
    by (simp add: numeral_2_eq_2)
  from C4_stalls_below_limit_resume [OF h, of harness 3, unfolded n r] h
  show ?thesis by (simp add: wired_eq)
qed

subsection \<open>C5: the third stall in a row\<close>




subsection \<open>The calls of each phase\<close>

lemma call_frame [simp]:
  "gateway (call e w) = gateway w"
  "abortSignal (call e w) = abortSignal w"
  "timers (call e w) = timers w"
  "nextTimerId (call e w) = nextTimerId w"
  "debugListener (call e w) = debugListener w"
  "pendingGatewayErrors (call e w) = pendingGatewayErrors w"
  "voiceManagerRef_current (call e w) = voiceManagerRef_current w"
  "helloTimeoutId (call e w) = helloTimeoutId w"
  "helloConnectedPollId (call e w) = helloConnectedPollId w"
  "consecutiveHelloStalls (call e w) = consecutiveHelloStalls w"
  "sawConnected (call e w) = sawConnected w"
  "sawDisallowedIntents (call e w) = sawDisallowedIntents w"
  "effects (call e w) = effects w @ [e]"
  by (simp_all add: call_def)











lemma env_step_signal [simp]:
  "(abortSignal (env_step p ev w) = None) = (abortSignal w = None)"
  by (cases ev) (simp_all add: env_step_def dispatchAbort_def Let_def split: option.splits)

lemma env_run_signal [simp]:
  "(abortSignal (env_run p evs w) = None) = (abortSignal w = None)"
  by (induction evs arbitrary: w) simp_all

lemma logGatewayError_frame [simp]:
  "gateway (logGatewayError p err w) = gateway w"
  "abortSignal (logGatewayError p err w) = abortSignal w"
  "timers (logGatewayError p err w) = timers w"
  "nextTimerId (logGatewayError p err w) = nextTimerId w"
  "debugListener (logGatewayError p err w) = debugListener w"
  "pendingGatewayErrors (logGatewayError p err w) = pendingGatewayErrors w"
  "voiceManagerRef_current (logGatewayError p err w) = voiceManagerRef_current w"
  "helloTimeoutId (logGatewayError p err w) = helloTimeoutId w"
  "helloConnectedPollId (logGatewayError p err w) = helloConnectedPollId w"
  "consecutiveHelloStalls (logGatewayError p err w) = consecutiveHelloStalls w"
  "sawConnected (logGatewayError p err w) = sawConnected w"
  "sawDisallowedIntents (logGatewayError p err w)
     = (sawDisallowedIntents w \<or> isDisallowedIntentsError p err)"
  "effects (logGatewayError p err w) = effects w @ [errorNotice p err]"
  by (simp_all add: logGatewayError_def errorNotice_def)

lemma inv_logGatewayError [simp]:
  "watchdog_inv (logGatewayError p err w) = watchdog_inv w"
  by (rule inv_cong) simp_all

lemma inv_call [simp]: "watchdog_inv (call e w) = watchdog_inv w"
  by (rule inv_cong) simp_all




lemma drainQueued_frame [simp]:
  "gateway (snd (drainQueued p q w)) = gateway w"
  "abortSignal (snd (drainQueued p q w)) = abortSignal w"
  "timers (snd (drainQueued p q w)) = timers w"
  "nextTimerId (snd (drainQueued p q w)) = nextTimerId w"
  "debugListener (snd (drainQueued p q w)) = debugListener w"
  "pendingGatewayErrors (snd (drainQueued p q w)) = pendingGatewayErrors w"
  "voiceManagerRef_current (snd (drainQueued p q w)) = voiceManagerRef_current w"
  "helloTimeoutId (snd (drainQueued p q w)) = helloTimeoutId w"
  "helloConnectedPollId (snd (drainQueued p q w)) = helloConnectedPollId w"
  "consecutiveHelloStalls (snd (drainQueued p q w)) = consecutiveHelloStalls w"
  "sawConnected (snd (drainQueued p q w)) = sawConnected w"
  by (induction q arbitrary: w; simp add: Let_def)+



lemma inv_drainQueued [simp]:
  "watchdog_inv (snd (drainQueued p q w)) = watchdog_inv w"
  by (rule inv_cong) simp_all







lemma waitLoop_frame [simp]:
  "pendingGatewayErrors (snd (waitLoop p evs w)) = pendingGatewayErrors w"
  "voiceManagerRef_current (snd (waitLoop p evs w)) = voiceManagerRef_current w"
  "debugListener (snd (waitLoop p evs w)) = debugListener w"
  "(abortSignal (snd (waitLoop p evs w)) = None) = (abortSignal w = None)"
  by (induction p evs w rule: waitLoop.induct; simp add: Let_def)+



subsection \<open>The try block\<close>

lemma noTeardownCall_simps [simp]:
  "noTeardownCall []"
  "noTeardownCall (xs @ ys) = (noTeardownCall xs \<and> noTeardownCall ys)"
  "noTeardownCall (e # xs) = (\<not> isTeardownCall e \<and> noTeardownCall xs)"
  by (simp_all add: noTeardownCall_def)



lemma notices_noTeardown [simp]: "noTeardownCall (map (errorNotice p) q)"
  by (simp add: noTeardownCall_def list_all_iff errorNotice_def)




lemma beforeTry_signal [simp]:
  "(abortSignal (beforeTry p w) = None) = (abortSignal w = None)"
  by (simp add: beforeTry_def Let_def split: option.splits)






subsection \<open>The finally block\<close>




lemma filter_teardown_clears [simp]: "filter isTeardownCall (clearCalls w) = []"
  by (simp add: clearCalls_def split: option.splits)

lemma filter_teardown_order [simp]:
  "filter isTeardownCall (teardownBeforeClear p) = teardownBeforeClear p"
  "filter isTeardownCall (teardownAfterClear p b) = teardownAfterClear p b"
  by (simp_all add: teardownBeforeClear_def teardownAfterClear_def split: option.splits)



subsection \<open>C1: teardown\<close>










subsection \<open>C2: the wait rejects\<close>







lemma harness_classifies [simp]:
  "isDisallowedIntentsError harness max_reconnect = False"
  "isDisallowedIntentsError harness fatal_4000 = False"
  "isDisallowedIntentsError harness fatal_4014 = True"
  "isDisallowedIntentsError harness transient = False"
  "shouldStopOnGatewayError harness max_reconnect = True"
  "shouldStopOnGatewayError harness fatal_4000 = True"
  "shouldStopOnGatewayError harness fatal_4014 = True"
  "shouldStopOnGatewayError harness transient = False"
  by (simp_all add: shouldStopOnGatewayError_def harness_def max_reconnect_def fatal_4000_def
      fatal_4014_def transient_def)

lemma harness_sel [simp]:
  "emitterPresent harness = True"
  "execApprovalsHandler harness = Some (None, None)"
  "accountId harness = ''default''"
  "voiceManager harness = None"
  "threadBindings_stop harness = None"
  "releaseEarlyGatewayErrorGuard harness = Some None"
  by (simp_all add: harness_def)







subsection \<open>C7: errors queued before the run\<close>



lemma quiet_teardown:
  "list_all (\<lambda>e. \<not> isErrorNotice e \<and> e \<noteq> WaitForDiscordGatewayStop)
     (teardownBeforeClear p @ clearCalls w @ teardownAfterClear p b)"
  by (simp add: teardownBeforeClear_def teardownAfterClear_def clearCalls_def
      split: option.splits)









lemma waitFor_pending [simp]:
  "pendingGatewayErrors (snd (waitForDiscordGatewayStop p evs w)) = pendingGatewayErrors w"
  by (simp add: waitForDiscordGatewayStop_def Let_def)





subsection \<open>C8: cancellation\<close>

lemma env_step_gateway_present [simp]:
  "(gateway (env_step p ev w) = None) = (gateway w = None)"
proof (cases ev)
  case (EmitDebug m)
  then show ?thesis by (simp add: env_step_def)
next
  case (TimerFires i)
  have "(gateway (helloTimeout c w') = None) = (gateway w' = None)" for c w'
    by (simp add: helloTimeout_def Let_def resetHelloStallCounter_def clearResumeState_def
        gateway_disconnect_def gateway_connect_def split: option.splits)
  then show ?thesis using TimerFires
    by (simp add: env_step_def fireTimer_def dropTimer_def split: option.splits timer_callback.splits)
next
  case (GatewaySetsConnected b)
  then show ?thesis by (simp add: env_step_def split: option.splits)
next
  case AbortSignalled
  then show ?thesis
    by (simp add: env_step_def dispatchAbort_def onAbort_def Let_def split: option.splits)
qed

lemma env_run_gateway_present [simp]:
  "(gateway (env_run p evs w) = None) = (gateway w = None)"
  by (induction evs arbitrary: w) simp_all








lemma count_list_filter_same:
  "P x \<Longrightarrow> count_list (filter P xs) x = count_list xs x"
  by (induction xs) auto




subsection \<open>C9: the dispatcher runs handler bodies one at a time, in order\<close>

lemma ordered_handle:
  "chainOrdered links \<Longrightarrow>
   chainOrdered (links @ [if links = [] \<or> last links = Settled then Running else Waiting])"
proof (induction links rule: chainOrdered.induct)
  case 1
  show ?case by simp
next
  case (2 rest)
  then show ?case by (cases "rest = []") simp_all
next
  case (3 rest)
  have "last rest = Waiting" if "rest \<noteq> []"
    using 3 last_in_set [OF that] by (simp add: list_all_iff)
  then show ?case using 3 by (cases "rest = []") simp_all
next
  case (4 rest)
  then show ?case by simp
qed

lemma waiting_settle:
  "list_all (\<lambda>s. s = Waiting) links \<Longrightarrow> settleLink k links = links"
proof (induction links arbitrary: k)
  case Nil
  show ?case by simp
next
  case (Cons s links)
  then show ?case by (cases k) simp_all
qed

lemma ordered_beginNext:
  "list_all (\<lambda>s. s = Waiting) rest \<Longrightarrow> chainOrdered (beginNext rest)"
  by (cases rest) simp_all

lemma ordered_settle:
  "chainOrdered links \<Longrightarrow> chainOrdered (settleLink k links)"
proof (induction links arbitrary: k rule: chainOrdered.induct)
  case 1
  show ?case by simp
next
  case (2 rest)
  then show ?case by (cases k) simp_all
next
  case (3 rest)
  then show ?case by (cases k) (simp_all add: ordered_beginNext waiting_settle)
next
  case (4 rest)
  then show ?case by simp
qed

lemma ordered_step:
  "chainOrdered (chain d) \<Longrightarrow> chainOrdered (chain (dispatch_step ev d))"
  by (cases ev) (simp_all add: handle_def bodySettles_def ordered_handle ordered_settle)

lemma ordered_fold:
  "chainOrdered (chain d) \<Longrightarrow> chainOrdered (chain (fold dispatch_step evs d))"
  by (induction evs arbitrary: d) (simp_all add: ordered_step)

lemma ordered_run: "chainOrdered (chain (dispatch_run evs))"
  unfolding dispatch_run_def by (rule ordered_fold) (simp add: newDispatcher_def)

lemma ordered_before:
  "chainOrdered links \<Longrightarrow> a < b \<Longrightarrow> b < length links \<Longrightarrow> links ! b \<noteq> Waiting \<Longrightarrow>
   links ! a = Settled"
proof (induction links arbitrary: a b rule: chainOrdered.induct)
  case 1
  then show ?case by simp
next
  case (2 rest)
  show ?case
  proof (cases a)
    case 0
    then show ?thesis by simp
  next
    case (Suc a')
    obtain b' where b: "b = Suc b'" using "2.prems"(2) by (cases b) simp_all
    from "2.IH" [of a' b'] "2.prems" Suc b show ?thesis by simp
  qed
next
  case (3 rest)
  obtain b' where b: "b = Suc b'" using "3.prems"(2) by (cases b) simp_all
  have "rest ! b' = Waiting"
    using "3.prems"(1,3) b by (simp add: list_all_length)
  then show ?case using "3.prems"(4) b by simp
next
  case (4 rest)
  then show ?case by simp
qed

lemma ordered_one_running:
  "chainOrdered links \<Longrightarrow> length (filter (\<lambda>s. s = Running) links) \<le> 1"
proof (induction links rule: chainOrdered.induct)
  case (3 rest)
  then have "filter (\<lambda>s. s = Running) rest = []"
    by (auto simp add: filter_empty_conv list_all_iff)
  then show ?case by simp
qed simp_all

lemma run_two_handles:
  "dispatch_run (evs @ [Handle, Handle]) = handle (handle (dispatch_run evs))"
  by (simp add: dispatch_run_def)

text \<open>
  C9. Against the chain described in the specification. After any calls of \<open>handle\<close>
  and any handler bodies settling, in any order:
  \<^item> whenever the body of a later call has begun, the body of every earlier call has
    settled;
  \<^item> at most one body is running;
  \<^item> when \<open>handle\<close> is then called for A and again for B, both calls return with
    neither body settled and with B's body not begun, and the links before them are
    as they were.
\<close>

theorem C9_handlers_run_in_order:
  "(\<forall>a b. a < b \<and> hasBegun (dispatch_run evs) b \<longrightarrow> hasSettled (dispatch_run evs) a)
   \<and> length (filter (\<lambda>s. s = Running) (chain (dispatch_run evs))) \<le> 1
   \<and> length (chain (dispatch_run (evs @ [Handle, Handle])))
       = length (chain (dispatch_run evs)) + 2
   \<and> \<not> hasSettled (dispatch_run (evs @ [Handle, Handle])) (length (chain (dispatch_run evs)))
   \<and> \<not> hasSettled (dispatch_run (evs @ [Handle, Handle]))
          (Suc (length (chain (dispatch_run evs))))
   \<and> \<not> hasBegun (dispatch_run (evs @ [Handle, Handle]))
          (Suc (length (chain (dispatch_run evs))))
   \<and> (\<forall>k < length (chain (dispatch_run evs)).
         chain (dispatch_run (evs @ [Handle, Handle])) ! k = chain (dispatch_run evs) ! k)"
proof -
  let ?d = "dispatch_run evs"
  have o: "chainOrdered (chain ?d)" by (rule ordered_run)
  have 1: "\<forall>a b. a < b \<and> hasBegun ?d b \<longrightarrow> hasSettled ?d a"
    using ordered_before [OF o] by (auto simp add: hasBegun_def hasSettled_def)
  have 2: "length (filter (\<lambda>s. s = Running) (chain ?d)) \<le> 1"
    by (rule ordered_one_running [OF o])
  have c: "chain (handle (handle ?d)) =
             chain ?d @ [if chain ?d = [] \<or> last (chain ?d) = Settled then Running else Waiting,
                         Waiting]"
    by (simp add: handle_def)
  have 3: "length (chain (dispatch_run (evs @ [Handle, Handle]))) = length (chain ?d) + 2"
    by (simp add: run_two_handles c)
  have 4: "\<not> hasSettled (dispatch_run (evs @ [Handle, Handle])) (length (chain ?d))"
    by (simp add: run_two_handles c hasSettled_def nth_append)
  have 5: "\<not> hasSettled (dispatch_run (evs @ [Handle, Handle])) (Suc (length (chain ?d)))"
    by (simp add: run_two_handles c hasSettled_def nth_append)
  have 6: "\<not> hasBegun (dispatch_run (evs @ [Handle, Handle])) (Suc (length (chain ?d)))"
    by (simp add: run_two_handles c hasBegun_def nth_append)
  have 7: "\<forall>k < length (chain ?d).
         chain (dispatch_run (evs @ [Handle, Handle])) ! k = chain ?d ! k"
    by (simp add: run_two_handles c nth_append)
  show ?thesis using 1 2 3 4 5 6 7 by blast
qed

lemma run_AB_eval:
  "chain (dispatch_run [Handle, Handle]) = [Running, Waiting]"
  "chain (dispatch_run [Handle, Handle, BodySettles 0 False]) = [Settled, Running]"
  "failuresLogged (dispatch_run [Handle, Handle, BodySettles 0 False]) = [0]"
  by (simp_all add: dispatch_run_def newDispatcher_def handle_def bodySettles_def isRunning_def)

text \<open>
  C9 at the run of the dispatcher's test: \<open>handle\<close> is called for A and for B; A's body
  is running and B's is waiting; A's body then settles (here by failing, which is
  logged), and B's body runs.
\<close>

theorem C9_handlers_run_in_order_witness:
  "\<not> hasSettled (dispatch_run ([] @ [Handle, Handle])) 0
   \<and> \<not> hasSettled (dispatch_run ([] @ [Handle, Handle])) (Suc 0)
   \<and> \<not> hasBegun (dispatch_run ([] @ [Handle, Handle])) (Suc 0)
   \<and> hasBegun (dispatch_run [Handle, Handle, BodySettles 0 False]) (Suc 0)
   \<and> hasSettled (dispatch_run [Handle, Handle, BodySettles 0 False]) 0
   \<and> length (filter (\<lambda>s. s = Running) (chain (dispatch_run [Handle, Handle, BodySettles 0 False])))
       \<le> 1"
proof -
  have e: "length (chain (dispatch_run [])) = 0"
    by (simp add: dispatch_run_def newDispatcher_def)
  have b: "0 < Suc 0 \<and> hasBegun (dispatch_run [Handle, Handle, BodySettles 0 False]) (Suc 0)"
    by (simp add: hasBegun_def run_AB_eval)
  note t0 = C9_handlers_run_in_order [of "[]", unfolded e]
  note t1 = C9_handlers_run_in_order [of "[Handle, Handle, BodySettles 0 False]"]
  note n = t0 [THEN conjunct2, THEN conjunct2, THEN conjunct2]
  have s: "hasSettled (dispatch_run [Handle, Handle, BodySettles 0 False]) 0"
    by (rule t1 [THEN conjunct1, rule_format, of 0 "Suc 0", OF b])
  show ?thesis
    by (intro conjI)
       (rule n [THEN conjunct1], rule n [THEN conjunct2, THEN conjunct1],
        rule n [THEN conjunct2, THEN conjunct2, THEN conjunct1],
        rule b [THEN conjunct2], rule s, rule t1 [THEN conjunct2, THEN conjunct1])
qed

end
